theory Spec2Isabelle
  imports Main "HOL-Library.Word" "HOL-Library.Sublist" "HOL-Library.Multiset"
begin

unbundle bit_operations_syntax

section \<open>The config loader of \<open>loader.go\<close>\<close>

subsection \<open>Data\<close>

text \<open>
  Go's \<open>int\<close> is taken at 64 bits: \<open>+\<close> wraps, comparisons are signed.
  Go strings are byte sequences, so \<open>string\<close> (a list of bytes) models both \<open>string\<close>
  and \<open>[]byte\<close>; \<open>len\<close> is \<open>length\<close>.
\<close>

type_synonym go_int = "64 word"

text \<open>The struct \<open>Loader\<close>, field by field.\<close>

record Loader =
  RootPath :: string
  PreservedArgs :: go_int
  lookupPaths :: "string list"
  loadedPaths :: "string list"
  skippedPaths :: "string list"
  loaderFlags :: go_int

text \<open>The flag constants, \<open>1 << iota\<close> for \<open>iota\<close> from 0 to 5, and the sentinel.\<close>

definition UseTest :: go_int where "UseTest = push_bit 0 1"
definition UseDotUser :: go_int where "UseDotUser = push_bit 1 1"
definition UseArgumentPaths :: go_int where "UseArgumentPaths = push_bit 2 1"
definition UseExecutablePath :: go_int where "UseExecutablePath = push_bit 3 1"
definition IgnoreMissingFiles :: go_int where "IgnoreMissingFiles = push_bit 4 1"
definition IgnoreInvalidFiles :: go_int where "IgnoreInvalidFiles = push_bit 5 1"

definition UseFlag :: go_int where "UseFlag = - 1"

text \<open>Run-time faults of the Go runtime that the code can raise.\<close>

datatype panic = IndexOutOfRange | SliceBoundsOutOfRange

text \<open>
  Everything the loader takes from outside the repository, as one record: the process
  (\<open>os.Args\<close>, \<open>flag.Args()\<close>), the file system (\<open>ioutil.ReadFile\<close>, taken as it stands
  at the call: a path reads the same however often it is read), the decoder
  (\<open>json.Unmarshal\<close>, which writes into the target and may return an error; the target it
  leaves behind is returned with the error), the operating system
  (\<open>user.Current().Username\<close>, \<open>osext.ExecutableFolder\<close>) and the two library functions on
  strings (\<open>filepath.Join\<close>, \<open>strings.TrimSpace\<close>). \<open>'e\<close> is the type of Go \<open>error\<close> values,
  \<open>'c\<close> the type of the value behind the \<open>config\<close> argument of \<open>Load\<close>.
\<close>

record ('e, 'c) env =
  os_args :: "string list"
  flag_args :: "string list"
  read_file :: "string \<Rightarrow> 'e + string"
  json_unmarshal :: "string \<Rightarrow> 'c \<Rightarrow> 'c \<times> 'e option"
  user_current :: "'e + string"
  executable_folder :: "'e + string"
  filepath_join :: "string list \<Rightarrow> string"
  trim_space :: "string \<Rightarrow> string"

subsection \<open>Operations\<close>

text \<open>\<open>Implements\<close>: \<open>l.loaderFlags&behaviour > 0\<close>, a signed comparison.\<close>

definition Implements :: "Loader \<Rightarrow> go_int \<Rightarrow> bool" where
  "Implements l behaviour = (0 <s (loaderFlags l AND behaviour))"

text \<open>
  \<open>NewLoader\<close>: the fields not named in the composite literal are zero (\<open>nil\<close> slices, the
  empty string).
\<close>

definition NewLoader :: "('e, 'c) env \<Rightarrow> go_int \<Rightarrow> 'e + Loader" where
  "NewLoader env flags =
     (let loader = \<lparr>RootPath = [], PreservedArgs = UseFlag, lookupPaths = [],
                    loadedPaths = [], skippedPaths = [], loaderFlags = flags\<rparr>
      in if Implements loader UseExecutablePath
         then (case executable_folder env of
                 Inl err \<Rightarrow> Inl err
               | Inr executableFolder \<Rightarrow> Inr (loader\<lparr>RootPath := executableFolder\<rparr>))
         else Inr (loader\<lparr>RootPath := ''.''\<rparr>))"

text \<open>
  \<open>isTest\<close>: \<open>os.Args[0]\<close> faults on an empty argument vector, and the slice expression
  \<open>runfile[len(runfile)-5:]\<close> faults when its lower bound is negative. The length of a
  string is a non-negative \<open>int\<close>, so \<open>len(runfile)-5\<close> does not wrap.
\<close>

definition isTest :: "('e, 'c) env \<Rightarrow> Loader \<Rightarrow> panic + bool" where
  "isTest env l =
     (case os_args env of
        [] \<Rightarrow> Inl IndexOutOfRange
      | runfile # _ \<Rightarrow>
          (let lo = int (length runfile) - 5
           in if lo < 0 then Inl SliceBoundsOutOfRange
              else Inr (drop (nat lo) runfile = ''.test'')))"

text \<open>\<open>user\<close>: the dot-file first when \<open>UseDotUser\<close> is set, then the operating system.\<close>

definition user :: "('e, 'c) env \<Rightarrow> Loader \<Rightarrow> string" where
  "user env l =
     (let current = (case user_current env of Inl err \<Rightarrow> [] | Inr username \<Rightarrow> username)
      in if Implements l UseDotUser
         then (case read_file env (filepath_join env [RootPath l, ''.user'']) of
                 Inr fileContents \<Rightarrow> trim_space env fileContents
               | Inl err \<Rightarrow> current)
         else current)"

text \<open>
  The second half of \<open>createLookupPaths\<close> (from the assignment of the one-element slice
  on): the base path, then the mixin. \<open>&&\<close> evaluates \<open>isTest\<close> only when \<open>UseTest\<close> is set.
\<close>

definition defaultLookupPaths :: "('e, 'c) env \<Rightarrow> Loader \<Rightarrow> panic + Loader" where
  "defaultLookupPaths env l =
     (let l1 = l\<lparr>lookupPaths := [filepath_join env [RootPath l, ''config.json'']]\<rparr>
      in case (if Implements l1 UseTest then isTest env l1 else Inr False) of
           Inl p \<Rightarrow> Inl p
         | Inr True \<Rightarrow>
             Inr (l1\<lparr>lookupPaths := lookupPaths l1 @
                    [filepath_join env [RootPath l1, ''config'', ''mixins'', ''test.json'']]\<rparr>)
         | Inr False \<Rightarrow>
             (let u = user env l1
              in if length u > 0
                 then Inr (l1\<lparr>lookupPaths := lookupPaths l1 @
                        [filepath_join env [RootPath l1, ''config'', ''mixins'', u @ ''.json'']]\<rparr>)
                 else Inr l1))"

text \<open>
  \<open>createLookupPaths\<close>. In the \<open>UseFlag\<close> branch the assignment of \<open>flagArgs\<close> is followed by
  no \<open>return\<close>, so control reaches the second half. In the other branch
  \<open>os.Args[splitSize:]\<close> faults on a negative \<open>splitSize\<close> (the comparison before it
  excludes a \<open>splitSize\<close> beyond the length); \<open>len(os.Args)\<close> is a non-negative \<open>int\<close>.
\<close>

definition createLookupPaths :: "('e, 'c) env \<Rightarrow> Loader \<Rightarrow> panic + Loader" where
  "createLookupPaths env l =
     (if Implements l UseArgumentPaths
      then if PreservedArgs l = UseFlag
           then (let flagArgs = flag_args env
                 in if length flagArgs > 0
                    then defaultLookupPaths env (l\<lparr>lookupPaths := flagArgs\<rparr>)
                    else defaultLookupPaths env l)
           else (let splitSize = PreservedArgs l + 1
                 in if sint splitSize < int (length (os_args env))
                    then if sint splitSize < 0 then Inl SliceBoundsOutOfRange
                         else Inr (l\<lparr>lookupPaths := drop (nat (sint splitSize)) (os_args env)\<rparr>)
                    else defaultLookupPaths env l)
      else defaultLookupPaths env l)"

text \<open>
  The loop of \<open>Load\<close> over the candidate paths. The state is the loader and the target;
  the result carries the error of the \<open>return err\<close> that ended the scan, if any.
\<close>

fun load_loop ::
  "('e, 'c) env \<Rightarrow> string list \<Rightarrow> Loader \<Rightarrow> 'c \<Rightarrow> Loader \<times> 'c \<times> 'e option" where
  "load_loop env [] l config = (l, config, None)"
| "load_loop env (configPath # rest) l config =
     (case read_file env configPath of
        Inl err \<Rightarrow>
          if \<not> Implements l IgnoreMissingFiles then (l, config, Some err)
          else load_loop env rest (l\<lparr>skippedPaths := skippedPaths l @ [configPath]\<rparr>) config
      | Inr configData \<Rightarrow>
          (case json_unmarshal env configData config of
             (config', Some err) \<Rightarrow>
               if \<not> Implements l IgnoreInvalidFiles then (l, config', Some err)
               else load_loop env rest
                      (l\<lparr>skippedPaths := skippedPaths l @ [configPath]\<rparr>) config'
           | (config', None) \<Rightarrow>
               load_loop env rest (l\<lparr>loadedPaths := loadedPaths l @ [configPath]\<rparr>) config'))"

text \<open>\<open>Load\<close>: resolve the paths, empty both lists, scan.\<close>

definition Load ::
  "('e, 'c) env \<Rightarrow> Loader \<Rightarrow> 'c \<Rightarrow> panic + Loader \<times> 'c \<times> 'e option" where
  "Load env l config =
     (case createLookupPaths env l of
        Inl p \<Rightarrow> Inl p
      | Inr l1 \<Rightarrow>
          Inr (load_loop env (lookupPaths l1)
                 (l1\<lparr>loadedPaths := [], skippedPaths := []\<rparr>) config))"

definition LoadedPaths :: "Loader \<Rightarrow> string list" where
  "LoadedPaths l = loadedPaths l"

definition SkippedPaths :: "Loader \<Rightarrow> string list" where
  "SkippedPaths l = skippedPaths l"

subsection \<open>A concrete installation\<close>

text \<open>
  An installation under \<open>/srv/app\<close> on which the operations are evaluated. Its join
  separates the elements by \<open>/\<close> and its trim removes ASCII white space: on clean,
  non-empty path elements and on ASCII text that is what \<open>filepath.Join\<close> and
  \<open>strings.TrimSpace\<close> return.
\<close>

fun slash_join :: "string list \<Rightarrow> string" where
  "slash_join [] = []"
| "slash_join [x] = x"
| "slash_join (x # y # ys) = x @ ''/'' @ slash_join (y # ys)"

definition is_ascii_space :: "char \<Rightarrow> bool" where
  "is_ascii_space c =
     (c = CHR 0x09 \<or> c = CHR 0x0A \<or> c = CHR 0x0B \<or> c = CHR 0x0C \<or> c = CHR 0x0D \<or> c = CHR '' '')"

definition ascii_trim :: "string \<Rightarrow> string" where
  "ascii_trim s = rev (dropWhile is_ascii_space (rev (dropWhile is_ascii_space s)))"

text \<open>
  The files: a base configuration, the mixin of user \<open>alice\<close>, whose second element has
  the wrong type, and a \<open>.user\<close> file that ends in a newline.
\<close>

definition demo_files :: "string \<Rightarrow> string + string" where
  "demo_files path =
     (if path = ''/srv/app/config.json'' then Inr ''[1,2]''
      else if path = ''/srv/app/config/mixins/alice.json'' then Inr ''[7,true]''
      else if path = ''/srv/app/.user'' then Inr (''alice'' @ [CHR 0x0A])
      else Inl ''no such file or directory'')"

text \<open>
  What \<open>json.Unmarshal\<close> does with these documents when the target is a \<open>*[2]int\<close>, the
  array as a pair. On an element of the wrong type it records an \<open>UnmarshalTypeError\<close>,
  goes on with the other elements and returns the recorded error at the end; a document
  that is not JSON is rejected before anything is written.
\<close>

definition array_unmarshal :: "string \<Rightarrow> int \<times> int \<Rightarrow> (int \<times> int) \<times> string option" where
  "array_unmarshal data target =
     (if data = ''[1,2]'' then ((1, 2), None)
      else if data = ''[7,true]''
           then ((7, snd target), Some ''json: cannot unmarshal bool into Go value of type int'')
           else (target, Some ''invalid character''))"

definition demo_env :: "(string, int \<times> int) env" where
  "demo_env =
     \<lparr>os_args = [''/srv/app/server'', ''-v'', ''a.json'', ''b.json''],
      flag_args = [''a.json'', ''b.json''],
      read_file = demo_files,
      json_unmarshal = array_unmarshal,
      user_current = Inr ''alice'',
      executable_folder = Inr ''/srv/app'',
      filepath_join = slash_join,
      trim_space = ascii_trim\<rparr>"

text \<open>The loader that \<open>NewLoader\<close> returns in this installation with \<open>UseExecutablePath\<close> set.\<close>

definition demo_loader :: "go_int \<Rightarrow> Loader" where
  "demo_loader flags =
     \<lparr>RootPath = ''/srv/app'', PreservedArgs = UseFlag, lookupPaths = [],
      loadedPaths = [], skippedPaths = [], loaderFlags = flags OR UseExecutablePath\<rparr>"

text \<open>
  A target whose type implements \<open>json.Unmarshaler\<close> and accepts one document only:
  \<^verbatim>\<open>func (o *Once) UnmarshalJSON(b []byte) error {
    if o.set { return errors.New("already set") }
    o.set = true
    return nil
  }\<close>
  The target is the field \<open>set\<close>.
\<close>

definition once_unmarshal :: "string \<Rightarrow> bool \<Rightarrow> bool \<times> string option" where
  "once_unmarshal data target =
     (if data = ''[1,2]''
      then (if target then (target, Some ''already set'') else (True, None))
      else (target, Some ''invalid character''))"

definition once_env :: "(string, bool) env" where
  "once_env =
     \<lparr>os_args = [''/srv/app/server'', ''/srv/app/config.json'', ''/srv/app/config.json''],
      flag_args = [],
      read_file = demo_files,
      json_unmarshal = once_unmarshal,
      user_current = Inr ''alice'',
      executable_folder = Inr ''/srv/app'',
      filepath_join = slash_join,
      trim_space = ascii_trim\<rparr>"

section \<open>Properties\<close>

subsection \<open>Auxiliary facts\<close>

lemmas flag_defs = UseTest_def UseDotUser_def UseArgumentPaths_def UseExecutablePath_def
  IgnoreMissingFiles_def IgnoreInvalidFiles_def UseFlag_def

lemmas demo_defs = demo_env_def once_env_def demo_loader_def demo_files_def
  array_unmarshal_def once_unmarshal_def ascii_trim_def is_ascii_space_def

lemmas eval_defs = Load_def createLookupPaths_def defaultLookupPaths_def user_def isTest_def
  Implements_def word_sless_alt Let_def

lemma NewLoader_demo:
  "NewLoader demo_env (flags OR UseExecutablePath) = Inr (demo_loader flags)"
proof -
  have "(flags OR UseExecutablePath) AND UseExecutablePath = UseExecutablePath"
    by (simp add: word_ao_absorbs)
  then have "Implements \<lparr>RootPath = [], PreservedArgs = UseFlag, lookupPaths = [],
                    loadedPaths = [], skippedPaths = [], loaderFlags = flags OR UseExecutablePath\<rparr>
               UseExecutablePath"
    by (simp add: Implements_def UseExecutablePath_def word_sless_alt)
  then show ?thesis
    by (simp add: NewLoader_def Let_def demo_env_def demo_loader_def)
qed

lemma Implements_lookupPaths [simp]: "Implements (l\<lparr>lookupPaths := ps\<rparr>) b = Implements l b"
  by (simp add: Implements_def)
lemma Implements_loadedPaths [simp]: "Implements (l\<lparr>loadedPaths := ps\<rparr>) b = Implements l b"
  by (simp add: Implements_def)
lemma Implements_skippedPaths [simp]: "Implements (l\<lparr>skippedPaths := ps\<rparr>) b = Implements l b"
  by (simp add: Implements_def)

lemma isTest_loader: "isTest env l = isTest env l'"
  by (simp add: isTest_def)

lemma user_lookupPaths [simp]: "user env (l\<lparr>lookupPaths := ps\<rparr>) = user env l"
  by (simp add: user_def Let_def)

lemma drop_eq_suffix:
  assumes "length s \<le> length r"
  shows "(drop (length r - length s) r = s) = suffix s r"
proof
  assume "drop (length r - length s) r = s"
  then have "r = take (length r - length s) r @ s" by (metis append_take_drop_id)
  then show "suffix s r" by (rule suffixI)
next
  assume "suffix s r"
  then obtain zs where "r = zs @ s" by (auto simp: suffix_def)
  then show "drop (length r - length s) r = s" by simp
qed

lemma sint_succ:
  fixes k :: go_int
  assumes "0 \<le> sint k" "sint k + 1 < 2 ^ 63"
  shows "sint (k + 1) = sint k + 1"
  using assms
  by (simp add: sint_word_ariths signed_take_bit_int_eq_self)

lemma defaultLookupPaths_forgets [simp]:
  "defaultLookupPaths env (l\<lparr>lookupPaths := ps\<rparr>) = defaultLookupPaths env l"
  by (simp add: defaultLookupPaths_def Let_def isTest_loader [of env "l\<lparr>lookupPaths := _\<rparr>" l])

lemma defaultLookupPaths_cases:
  "case defaultLookupPaths env l of
     Inl p \<Rightarrow> Implements l UseTest \<and> isTest env l = Inl p
   | Inr l' \<Rightarrow>
       l' = l\<lparr>lookupPaths := filepath_join env [RootPath l, ''config.json''] #
              (if Implements l UseTest \<and> isTest env l = Inr True
               then [filepath_join env [RootPath l, ''config'', ''mixins'', ''test.json'']]
               else if user env l \<noteq> []
                    then [filepath_join env [RootPath l, ''config'', ''mixins'', user env l @ ''.json'']]
                    else [])\<rparr>"
  by (auto simp: defaultLookupPaths_def Let_def isTest_loader [of env "l\<lparr>lookupPaths := _\<rparr>" l]
           split: sum.splits bool.splits)

lemma load_loop_append:
  "load_loop env (xs @ ys) l c =
     (case load_loop env xs l c of
        (l', c', None) \<Rightarrow> load_loop env ys l' c'
      | (l', c', Some err) \<Rightarrow> (l', c', Some err))"
  by (induction xs arbitrary: l c) (auto split: sum.splits prod.splits option.splits)

lemma load_loop_inv:
  "load_loop env xs l c = (l', c', e) \<Longrightarrow>
   \<exists>n ls ss. n \<le> length xs \<and> (e = None \<longrightarrow> n = length xs) \<and>
     l' = l\<lparr>loadedPaths := loadedPaths l @ ls, skippedPaths := skippedPaths l @ ss\<rparr> \<and>
     subseq ls (take n xs) \<and> subseq ss (take n xs) \<and>
     mset ls + mset ss = mset (take n xs) \<and>
     take n xs \<in> shuffles ls ss"
proof (induction xs arbitrary: l c)
  case Nil
  then have "l' = l" "e = None" by simp_all
  then show ?case
    by (intro exI [of _ 0] exI [of _ "[]"]) simp
next
  case (Cons p ps)
  let ?stop = "\<exists>n ls ss. n \<le> length (p # ps) \<and> (e = None \<longrightarrow> n = length (p # ps)) \<and>
     l' = l\<lparr>loadedPaths := loadedPaths l @ ls, skippedPaths := skippedPaths l @ ss\<rparr> \<and>
     subseq ls (take n (p # ps)) \<and> subseq ss (take n (p # ps)) \<and>
     mset ls + mset ss = mset (take n (p # ps)) \<and>
     take n (p # ps) \<in> shuffles ls ss"
  have abort: ?stop if "l' = l" "e \<noteq> None"
    using that by (intro exI [of _ 0] exI [of _ "[]"]) simp
  have skip: ?stop
    if run: "load_loop env ps (l\<lparr>skippedPaths := skippedPaths l @ [p]\<rparr>) c1 = (l', c', e)"
    for c1
  proof -
    from Cons.IH [OF run] obtain n ls ss where
      h: "n \<le> length ps" "e = None \<longrightarrow> n = length ps"
         "l' = l\<lparr>loadedPaths := loadedPaths l @ ls, skippedPaths := skippedPaths l @ p # ss\<rparr>"
         "subseq ls (take n ps)" "subseq ss (take n ps)"
         "mset ls + mset ss = mset (take n ps)"
         "take n ps \<in> shuffles ls ss"
      by auto
    have "p # take n ps \<in> shuffles ls (p # ss)"
      using h(7) by (rule Cons_in_shuffles_rightI)
    then show ?thesis
      using h(1-6) by (intro exI [of _ "Suc n"] exI [of _ ls] exI [of _ "p # ss"]) auto
  qed
  have load: ?stop
    if run: "load_loop env ps (l\<lparr>loadedPaths := loadedPaths l @ [p]\<rparr>) c1 = (l', c', e)"
    for c1
  proof -
    from Cons.IH [OF run] obtain n ls ss where
      h: "n \<le> length ps" "e = None \<longrightarrow> n = length ps"
         "l' = l\<lparr>loadedPaths := loadedPaths l @ p # ls, skippedPaths := skippedPaths l @ ss\<rparr>"
         "subseq ls (take n ps)" "subseq ss (take n ps)"
         "mset ls + mset ss = mset (take n ps)"
         "take n ps \<in> shuffles ls ss"
      by auto
    have "p # take n ps \<in> shuffles (p # ls) ss"
      using h(7) by (rule Cons_in_shuffles_leftI)
    then show ?thesis
      using h(1-6) by (intro exI [of _ "Suc n"] exI [of _ "p # ls"] exI [of _ ss]) auto
  qed
  show ?case
  proof (cases "read_file env p")
    case (Inl err)
    show ?thesis
    proof (cases "Implements l IgnoreMissingFiles")
      case True
      with Inl Cons.prems show ?thesis by (intro skip [of c]) auto
    next
      case False
      with Inl Cons.prems show ?thesis by (intro abort) auto
    qed
  next
    case (Inr d)
    obtain c1 r where dec: "json_unmarshal env d c = (c1, r)" by (cases "json_unmarshal env d c")
    show ?thesis
    proof (cases r)
      case None
      have "load_loop env ps (l\<lparr>loadedPaths := loadedPaths l @ [p]\<rparr>) c1 = (l', c', e)"
        using Cons.prems Inr dec None by simp
      then show ?thesis by (intro load [of c1])
    next
      case (Some err)
      show ?thesis
      proof (cases "Implements l IgnoreInvalidFiles")
        case True
        then have "load_loop env ps (l\<lparr>skippedPaths := skippedPaths l @ [p]\<rparr>) c1 = (l', c', e)"
          using Cons.prems Inr dec Some by simp
        then show ?thesis by (intro skip [of c1])
      next
        case False
        with Inr dec Some Cons.prems show ?thesis by (intro abort) auto
      qed
    qed
  qed
qed

lemma subseq_take_left: "subseq xs (take n ys) \<Longrightarrow> subseq xs ys"
proof -
  assume "subseq xs (take n ys)"
  moreover have "subseq (take n ys) ys"
    by (rule prefix_imp_subseq [OF take_is_prefix])
  ultimately show ?thesis by (rule subseq_order.trans)
qed

lemma mset_split_distinct_disjoint:
  assumes "mset ls + mset ss = mset zs" "distinct zs"
  shows "set ls \<inter> set ss = {}"
proof (rule ccontr)
  assume "set ls \<inter> set ss \<noteq> {}"
  then obtain x where "x \<in> set ls" "x \<in> set ss" by auto
  then have "0 < count (mset ls) x" "0 < count (mset ss) x"
    by (metis count_greater_zero_iff set_mset_mset)+
  then have "2 \<le> count (mset ls) x + count (mset ss) x" by linarith
  then have "2 \<le> count (mset ls + mset ss) x" by (simp only: count_union)
  then have "2 \<le> count (mset zs) x" by (simp only: assms(1))
  moreover have "count (mset zs) x \<le> 1"
    using assms(2) by (auto simp: distinct_count_atmost_1)
  ultimately show False by linarith
qed

lemma user_private_fields [simp]:
  "user env (l\<lparr>loadedPaths := a\<rparr>) = user env l"
  "user env (l\<lparr>skippedPaths := b\<rparr>) = user env l"
  by (simp_all add: user_def Let_def)

lemma defaultLookupPaths_private_fields:
  "defaultLookupPaths env (l\<lparr>loadedPaths := a, skippedPaths := b\<rparr>) =
     (case defaultLookupPaths env l of
        Inl p \<Rightarrow> Inl p
      | Inr l1 \<Rightarrow> Inr (l1\<lparr>loadedPaths := a, skippedPaths := b\<rparr>))"
proof -
  define r where "r = isTest env l"
  have t: "isTest env k = r" for k
    unfolding r_def by (rule isTest_loader)
  show ?thesis
  proof (cases "Implements l UseTest")
    case False
    then show ?thesis by (simp add: defaultLookupPaths_def Let_def)
  next
    case True
    show ?thesis
    proof (cases r)
      case (Inl p)
      with True show ?thesis by (simp add: defaultLookupPaths_def Let_def t)
    next
      case (Inr v)
      with True show ?thesis by (cases v) (simp_all add: defaultLookupPaths_def Let_def t)
    qed
  qed
qed

lemma createLookupPaths_private_fields:
  "createLookupPaths env (l\<lparr>lookupPaths := ps, loadedPaths := a, skippedPaths := b\<rparr>) =
     (case createLookupPaths env l of
        Inl p \<Rightarrow> Inl p
      | Inr l1 \<Rightarrow> Inr (l1\<lparr>loadedPaths := a, skippedPaths := b\<rparr>))"
proof -
  have d: "defaultLookupPaths env (l\<lparr>lookupPaths := qs, loadedPaths := a, skippedPaths := b\<rparr>) =
     (case defaultLookupPaths env l of
        Inl p \<Rightarrow> Inl p
      | Inr l1 \<Rightarrow> Inr (l1\<lparr>loadedPaths := a, skippedPaths := b\<rparr>))" for qs
    using defaultLookupPaths_private_fields [where env = env and l = "l\<lparr>lookupPaths := qs\<rparr>"
            and a = a and b = b]
    by simp
  show ?thesis
    by (simp add: createLookupPaths_def Let_def d defaultLookupPaths_private_fields)
qed

lemma createLookupPaths_frame:
  "createLookupPaths env l = Inr l1 \<Longrightarrow> l1 = l\<lparr>lookupPaths := lookupPaths l1\<rparr>"
  by (auto simp: createLookupPaths_def defaultLookupPaths_def Let_def
           split: sum.splits bool.splits if_splits)

lemma Load_frame:
  assumes "Load env l config = Inr (l', config', e)"
  shows "l' = l\<lparr>lookupPaths := lookupPaths l', loadedPaths := loadedPaths l',
                 skippedPaths := skippedPaths l'\<rparr>"
proof -
  from assms obtain l1 where c: "createLookupPaths env l = Inr l1"
    and run: "load_loop env (lookupPaths l1) (l1\<lparr>loadedPaths := [], skippedPaths := []\<rparr>) config
                = (l', config', e)"
    by (auto simp: Load_def split: sum.splits)
  from load_loop_inv [OF run] obtain ls ss where
    "l' = l1\<lparr>loadedPaths := ls, skippedPaths := ss\<rparr>" by auto
  moreover have "l1 = l\<lparr>lookupPaths := lookupPaths l1\<rparr>" by (rule createLookupPaths_frame [OF c])
  ultimately have "l' = l\<lparr>lookupPaths := lookupPaths l1, loadedPaths := ls, skippedPaths := ss\<rparr>"
    by (metis Loader.update_convs(4,5) Loader.surjective Loader.update_convs(3) Loader.select_convs)
  then show ?thesis by simp
qed

subsection \<open>Path resolution\<close>

text \<open>
  C10. \<open>isTest\<close> returns only when the invocation path \<open>os.Args[0]\<close> has at least five
  bytes: on a shorter path the slice expression faults, and on a path of five bytes or
  more the result is true exactly when the path ends with \<open>.test\<close>.
\<close>
theorem isTest_total_iff_long:
  assumes "os_args env = runfile # rest"
  shows "(length runfile < 5 \<longrightarrow> isTest env l = Inl SliceBoundsOutOfRange) \<and>
         (5 \<le> length runfile \<longrightarrow> isTest env l = Inr (suffix ''.test'' runfile))"
proof (intro conjI impI)
  assume "length runfile < 5"
  with assms show "isTest env l = Inl SliceBoundsOutOfRange"
    by (simp add: isTest_def Let_def)
next
  assume long: "5 \<le> length runfile"
  then have "nat (int (length runfile) - 5) = length runfile - length ''.test''" by simp
  moreover have "length ''.test'' \<le> length runfile" using long by simp
  ultimately have "(drop (nat (int (length runfile) - 5)) runfile = ''.test'') = suffix ''.test'' runfile"
    using drop_eq_suffix [of "''.test''" runfile] by simp
  with assms long show "isTest env l = Inr (suffix ''.test'' runfile)"
    by (simp add: isTest_def Let_def)
qed

text \<open>The paths \<open>a.go\<close> (four bytes), \<open>/tmp/conf.test\<close> and \<open>/srv/app/server\<close>.\<close>
theorem isTest_total_iff_long_witness:
  "isTest (demo_env\<lparr>os_args := [''a.go'']\<rparr>) (demo_loader UseTest) = Inl SliceBoundsOutOfRange \<and>
   isTest (demo_env\<lparr>os_args := [''/tmp/conf.test'']\<rparr>) (demo_loader UseTest) = Inr True \<and>
   isTest demo_env (demo_loader UseTest) = Inr False"
proof -
  have a: "os_args (demo_env\<lparr>os_args := [''a.go'']\<rparr>) = ''a.go'' # []" by simp
  have b: "os_args (demo_env\<lparr>os_args := [''/tmp/conf.test'']\<rparr>) = ''/tmp/conf.test'' # []" by simp
  have c: "os_args demo_env = ''/srv/app/server'' # [''-v'', ''a.json'', ''b.json'']"
    by (simp add: demo_env_def)
  show ?thesis
    using isTest_total_iff_long [OF a, of "demo_loader UseTest"]
      isTest_total_iff_long [OF b, of "demo_loader UseTest"]
      isTest_total_iff_long [OF c, of "demo_loader UseTest"]
    by (simp add: suffix_def)
qed

text \<open>
  C6. With \<open>UseDotUser\<close> set and a readable \<open>.user\<close> file under the root path, the
  identity is the trimmed contents of that file, whatever the operating system's user
  lookup would return. Without the flag, or when the file cannot be read, the identity is
  the operating system's user name, and the empty string when that lookup fails.
\<close>
theorem user_resolution:
  "(Implements l UseDotUser \<and>
      read_file env (filepath_join env [RootPath l, ''.user'']) = Inr fileContents \<longrightarrow>
      (\<forall>cu. user (env\<lparr>user_current := cu\<rparr>) l = trim_space env fileContents)) \<and>
   (\<not> Implements l UseDotUser \<or>
      (\<exists>err. read_file env (filepath_join env [RootPath l, ''.user'']) = Inl err) \<longrightarrow>
      (\<forall>username. user_current env = Inr username \<longrightarrow> user env l = username) \<and>
      (\<forall>err. user_current env = Inl err \<longrightarrow> user env l = []))"
  by (auto simp: user_def)

text \<open>
  The \<open>.user\<close> file of the installation holds \<open>alice\<close> and a newline; the operating
  system says \<open>alice\<close>, \<open>bob\<close> or fails.
\<close>
theorem user_resolution_witness:
  "user demo_env (demo_loader UseDotUser) = ''alice'' \<and>
   user (demo_env\<lparr>user_current := Inr ''bob''\<rparr>) (demo_loader UseDotUser) = ''alice'' \<and>
   user (demo_env\<lparr>user_current := Inr ''bob''\<rparr>) (demo_loader 0) = ''bob'' \<and>
   user (demo_env\<lparr>user_current := Inl ''user: unknown userid''\<rparr>) (demo_loader 0) = []"
proof -
  have dot: "Implements (demo_loader UseDotUser) UseDotUser"
    by (simp add: Implements_def demo_loader_def flag_defs word_sless_alt)
  have nodot: "\<not> Implements (demo_loader 0) UseDotUser"
    by (simp add: Implements_def demo_loader_def flag_defs word_sless_alt)
  have rd: "read_file demo_env (filepath_join demo_env [RootPath (demo_loader UseDotUser), ''.user''])
              = Inr (''alice'' @ [CHR 0x0A])"
    by (simp add: demo_defs)
  have tr: "trim_space demo_env (''alice'' @ [CHR 0x0A]) = ''alice''"
    by (simp add: demo_defs)
  from user_resolution [of "demo_loader UseDotUser" demo_env "''alice'' @ [CHR 0x0A]"] dot rd tr
  have 1: "\<forall>cu. user (demo_env\<lparr>user_current := cu\<rparr>) (demo_loader UseDotUser) = ''alice''"
    by simp
  from 1 have 2: "user (demo_env\<lparr>user_current := user_current demo_env\<rparr>) (demo_loader UseDotUser) = ''alice''"
    by blast
  from user_resolution [of "demo_loader 0" "demo_env\<lparr>user_current := Inr ''bob''\<rparr>"] nodot
  have 3: "user (demo_env\<lparr>user_current := Inr ''bob''\<rparr>) (demo_loader 0) = ''bob''"
    by simp
  from user_resolution [of "demo_loader 0" "demo_env\<lparr>user_current := Inl ''user: unknown userid''\<rparr>"] nodot
  have 4: "user (demo_env\<lparr>user_current := Inl ''user: unknown userid''\<rparr>) (demo_loader 0) = []"
    by simp
  from 1 2 3 4 show ?thesis by simp
qed

text \<open>
  C5. When no argument path short-circuits the resolution, the candidate sequence is the
  base path followed by at most one mixin: \<open>test.json\<close> when \<open>UseTest\<close> is set and \<open>isTest\<close>
  holds, whatever the user identity; otherwise the mixin of the user identity when that
  is not empty, and nothing when it is empty. The resolution then fails only by the fault
  of \<open>isTest\<close> under \<open>UseTest\<close>.
\<close>
theorem default_sequence_mixin:
  assumes "\<not> (Implements l UseArgumentPaths \<and> PreservedArgs l \<noteq> UseFlag \<and>
              sint (PreservedArgs l + 1) < int (length (os_args env)))"
  shows "case createLookupPaths env l of
           Inl p \<Rightarrow> Implements l UseTest \<and> isTest env l = Inl p
         | Inr l' \<Rightarrow>
             (\<exists>mixin. lookupPaths l' = filepath_join env [RootPath l, ''config.json''] # mixin \<and>
                length mixin \<le> 1 \<and>
                (Implements l UseTest \<and> isTest env l = Inr True \<longrightarrow>
                   mixin = [filepath_join env [RootPath l, ''config'', ''mixins'', ''test.json'']]) \<and>
                (\<not> (Implements l UseTest \<and> isTest env l = Inr True) \<longrightarrow>
                   (user env l \<noteq> [] \<longrightarrow>
                      mixin = [filepath_join env
                                 [RootPath l, ''config'', ''mixins'', user env l @ ''.json'']]) \<and>
                   (user env l = [] \<longrightarrow> mixin = [])))"
proof -
  have "createLookupPaths env l = defaultLookupPaths env l"
    using assms by (auto simp: createLookupPaths_def Let_def)
  then show ?thesis
    using defaultLookupPaths_cases [where env = env and l = l] by (auto split: sum.splits)
qed

text \<open>
  With \<open>UseTest\<close> set: a test binary, the server binary with user \<open>alice\<close>, the server
  binary with no user, and a four-byte invocation path.
\<close>
theorem default_sequence_mixin_witness:
  "createLookupPaths (demo_env\<lparr>os_args := [''/srv/app/conf.test'']\<rparr>) (demo_loader UseTest) =
     Inr ((demo_loader UseTest)
            \<lparr>lookupPaths := [''/srv/app/config.json'', ''/srv/app/config/mixins/test.json'']\<rparr>) \<and>
   createLookupPaths demo_env (demo_loader UseTest) =
     Inr ((demo_loader UseTest)
            \<lparr>lookupPaths := [''/srv/app/config.json'', ''/srv/app/config/mixins/alice.json'']\<rparr>) \<and>
   createLookupPaths (demo_env\<lparr>user_current := Inl ''user: unknown userid''\<rparr>) (demo_loader UseTest) =
     Inr ((demo_loader UseTest)\<lparr>lookupPaths := [''/srv/app/config.json'']\<rparr>) \<and>
   createLookupPaths (demo_env\<lparr>os_args := [''a.go'']\<rparr>) (demo_loader UseTest) =
     Inl SliceBoundsOutOfRange"
  using default_sequence_mixin [where l = "demo_loader UseTest"
          and env = "demo_env\<lparr>os_args := [''/srv/app/conf.test'']\<rparr>"]
        default_sequence_mixin [where l = "demo_loader UseTest" and env = demo_env]
        default_sequence_mixin [where l = "demo_loader UseTest"
          and env = "demo_env\<lparr>user_current := Inl ''user: unknown userid''\<rparr>"]
        default_sequence_mixin [where l = "demo_loader UseTest"
          and env = "demo_env\<lparr>os_args := [''a.go'']\<rparr>"]
  by (simp add: eval_defs demo_defs flag_defs)

text \<open>
  C8. Without \<open>UseArgumentPaths\<close> the candidate sequence starts with the join of the root
  path and \<open>config.json\<close>; the resolution fails only by the fault of \<open>isTest\<close> under
  \<open>UseTest\<close>.
\<close>
theorem base_path_first:
  assumes "\<not> Implements l UseArgumentPaths"
  shows "case createLookupPaths env l of
           Inl p \<Rightarrow> Implements l UseTest \<and> isTest env l = Inl p
         | Inr l' \<Rightarrow> lookupPaths l' \<noteq> [] \<and>
                      hd (lookupPaths l') = filepath_join env [RootPath l, ''config.json'']"
proof -
  have "createLookupPaths env l = defaultLookupPaths env l"
    using assms by (simp add: createLookupPaths_def)
  then show ?thesis
    using defaultLookupPaths_cases [where env = env and l = l] by (auto split: sum.splits)
qed

text \<open>The installation with \<open>UseTest\<close> and \<open>UseDotUser\<close> set.\<close>
theorem base_path_first_witness:
  "\<not> Implements (demo_loader (UseTest OR UseDotUser)) UseArgumentPaths \<and>
   createLookupPaths demo_env (demo_loader (UseTest OR UseDotUser)) =
     Inr ((demo_loader (UseTest OR UseDotUser))
            \<lparr>lookupPaths := [''/srv/app/config.json'', ''/srv/app/config/mixins/alice.json'']\<rparr>) \<and>
   hd [''/srv/app/config.json'', ''/srv/app/config/mixins/alice.json''] =
     filepath_join demo_env [RootPath (demo_loader (UseTest OR UseDotUser)), ''config.json'']"
  using base_path_first [where l = "demo_loader (UseTest OR UseDotUser)" and env = demo_env]
  by (simp add: eval_defs demo_defs flag_defs)

text \<open>
  C7. With \<open>UseArgumentPaths\<close> set, \<open>PreservedArgs = k\<close> for a \<open>k \<ge> 0\<close> and more than
  \<open>k + 1\<close> process arguments, the candidate sequence is the process arguments from index
  \<open>k + 1\<close> on and nothing else. The number of arguments is the length of a Go slice, an
  \<open>int\<close>, hence below \<open>2 ^ 63\<close>.
\<close>
theorem argument_paths_from_split:
  assumes "Implements l UseArgumentPaths"
      and "0 \<le> sint (PreservedArgs l)"
      and "nat (sint (PreservedArgs l)) + 1 < length (os_args env)"
      and "length (os_args env) < 2 ^ 63"
  shows "createLookupPaths env l =
           Inr (l\<lparr>lookupPaths := drop (nat (sint (PreservedArgs l)) + 1) (os_args env)\<rparr>)"
proof -
  have ne: "PreservedArgs l \<noteq> UseFlag"
    using assms(2) by (auto simp: UseFlag_def)
  have "int (length (os_args env)) < int (2 ^ 63)"
    using assms(4) by (simp only: of_nat_less_iff)
  then have "int (length (os_args env)) < 2 ^ 63" by simp
  then have "sint (PreservedArgs l) + 1 < 2 ^ 63"
    using assms(2,3) by linarith
  then have s: "sint (PreservedArgs l + 1) = sint (PreservedArgs l) + 1"
    using assms(2) by (rule sint_succ [rotated])
  have "nat (sint (PreservedArgs l) + 1) = nat (sint (PreservedArgs l)) + 1"
    using assms(2) by simp
  moreover have "sint (PreservedArgs l) + 1 < int (length (os_args env))"
    using assms(2,3) by linarith
  ultimately show ?thesis
    using assms(1,2) ne s by (simp add: createLookupPaths_def Let_def)
qed

text \<open>One preserved argument (\<open>-v\<close>) before the two paths.\<close>
theorem argument_paths_from_split_witness:
  "Implements ((demo_loader UseArgumentPaths)\<lparr>PreservedArgs := 1\<rparr>) UseArgumentPaths \<and>
   os_args demo_env = [''/srv/app/server'', ''-v'', ''a.json'', ''b.json''] \<and>
   createLookupPaths demo_env ((demo_loader UseArgumentPaths)\<lparr>PreservedArgs := 1\<rparr>) =
     Inr ((demo_loader UseArgumentPaths)\<lparr>PreservedArgs := 1, lookupPaths := [''a.json'', ''b.json'']\<rparr>)"
  using argument_paths_from_split
          [where l = "(demo_loader UseArgumentPaths)\<lparr>PreservedArgs := 1\<rparr>" and env = demo_env]
  by (simp add: eval_defs demo_defs flag_defs)

text \<open>
  C1. In the installation, with \<open>UseArgumentPaths\<close> set, \<open>PreservedArgs\<close> at \<open>UseFlag\<close> and
  the flag remainder \<open>a.json\<close>, \<open>b.json\<close>, the resolved sequence is the base path and the
  mixin of \<open>alice\<close>, not the remainder: the assignment of the remainder is overwritten.
\<close>
theorem flag_remainder_overwritten:
  "flag_args demo_env = [''a.json'', ''b.json''] \<and>
   Implements (demo_loader UseArgumentPaths) UseArgumentPaths \<and>
   PreservedArgs (demo_loader UseArgumentPaths) = UseFlag \<and>
   createLookupPaths demo_env (demo_loader UseArgumentPaths) =
     Inr ((demo_loader UseArgumentPaths)
            \<lparr>lookupPaths := [''/srv/app/config.json'', ''/srv/app/config/mixins/alice.json'']\<rparr>) \<and>
   createLookupPaths demo_env (demo_loader UseArgumentPaths) \<noteq>
     Inr ((demo_loader UseArgumentPaths)\<lparr>lookupPaths := flag_args demo_env\<rparr>)"
  by (simp add: eval_defs demo_defs flag_defs)

subsection \<open>Loading\<close>

text \<open>
  C9. A call of \<open>Load\<close> on the loader that an earlier call left behind returns what it
  returns on the same loader with empty lists: nothing of the earlier call's
  \<open>loadedPaths\<close> and \<open>skippedPaths\<close> (or \<open>lookupPaths\<close>) survives.
\<close>
theorem Load_forgets_previous_lists:
  assumes "Load env1 l0 config1 = Inr (l1, config1', e1)"
  shows "Load env2 l1 config2 =
           Load env2 (l0\<lparr>lookupPaths := [], loadedPaths := [], skippedPaths := []\<rparr>) config2"
proof -
  have "l1 = l0\<lparr>lookupPaths := lookupPaths l1, loadedPaths := loadedPaths l1,
                 skippedPaths := skippedPaths l1\<rparr>"
    by (rule Load_frame [OF assms])
  then have "Load env2 l1 config2 =
      Load env2 (l0\<lparr>lookupPaths := lookupPaths l1, loadedPaths := loadedPaths l1,
                 skippedPaths := skippedPaths l1\<rparr>) config2" by simp
  also have "\<dots> = Load env2 (l0\<lparr>lookupPaths := [], loadedPaths := [], skippedPaths := []\<rparr>) config2"
    by (simp add: Load_def createLookupPaths_private_fields split: sum.splits)
  finally show ?thesis .
qed

text \<open>
  A first call that loads the base and skips the mixin, then a second call after the
  files have gone: both lists are empty after the second call.
\<close>
theorem Load_forgets_previous_lists_witness:
  "Load demo_env (demo_loader IgnoreInvalidFiles) (0, 0) =
     Inr ((demo_loader IgnoreInvalidFiles)
            \<lparr>lookupPaths := [''/srv/app/config.json'', ''/srv/app/config/mixins/alice.json''],
             loadedPaths := [''/srv/app/config.json''],
             skippedPaths := [''/srv/app/config/mixins/alice.json'']\<rparr>, (7, 2), None) \<and>
   Load (demo_env\<lparr>read_file := \<lambda>path. Inl ''no such file or directory''\<rparr>)
        ((demo_loader IgnoreInvalidFiles)
            \<lparr>lookupPaths := [''/srv/app/config.json'', ''/srv/app/config/mixins/alice.json''],
             loadedPaths := [''/srv/app/config.json''],
             skippedPaths := [''/srv/app/config/mixins/alice.json'']\<rparr>) (0, 0) =
     Inr ((demo_loader IgnoreInvalidFiles)
            \<lparr>lookupPaths := [''/srv/app/config.json'', ''/srv/app/config/mixins/alice.json''],
             loadedPaths := [], skippedPaths := []\<rparr>, (0, 0), Some ''no such file or directory'')"
  using Load_forgets_previous_lists
          [where ?env1.0 = demo_env and ?l0.0 = "demo_loader IgnoreInvalidFiles"
             and ?config1.0 = "(0, 0)" and config1' = "(7, 2)" and ?e1.0 = None
             and ?l1.0 = "(demo_loader IgnoreInvalidFiles)
                 \<lparr>lookupPaths := [''/srv/app/config.json'', ''/srv/app/config/mixins/alice.json''],
                  loadedPaths := [''/srv/app/config.json''],
                  skippedPaths := [''/srv/app/config/mixins/alice.json'']\<rparr>"
             and ?env2.0 = "demo_env\<lparr>read_file := \<lambda>path. Inl ''no such file or directory''\<rparr>"
             and ?config2.0 = "(0, 0)"]
  by (simp add: eval_defs demo_defs flag_defs)

text \<open>
  In the installation, without tolerance flags, the base \<open>[1,2]\<close> decodes and the mixin
  \<open>[7,true]\<close> fails to decode after its first element was stored: \<open>Load\<close> returns the
  decode error with the target at \<open>(7, 2)\<close>, not at the \<open>(1, 2)\<close> that the base alone gives.
\<close>
theorem decode_failure_merges_fields:
  "createLookupPaths demo_env (demo_loader 0) =
     Inr ((demo_loader 0)
            \<lparr>lookupPaths := [''/srv/app/config.json'', ''/srv/app/config/mixins/alice.json'']\<rparr>) \<and>
   \<not> Implements (demo_loader 0) IgnoreMissingFiles \<and>
   \<not> Implements (demo_loader 0) IgnoreInvalidFiles \<and>
   read_file demo_env ''/srv/app/config.json'' = Inr ''[1,2]'' \<and>
   json_unmarshal demo_env ''[1,2]'' (0, 0) = ((1, 2), None) \<and>
   read_file demo_env ''/srv/app/config/mixins/alice.json'' = Inr ''[7,true]'' \<and>
   json_unmarshal demo_env ''[7,true]'' (1, 2) =
     ((7, 2), Some ''json: cannot unmarshal bool into Go value of type int'') \<and>
   Load demo_env (demo_loader 0) (0, 0) =
     Inr ((demo_loader 0)
            \<lparr>lookupPaths := [''/srv/app/config.json'', ''/srv/app/config/mixins/alice.json''],
             loadedPaths := [''/srv/app/config.json''], skippedPaths := []\<rparr>,
          (7, 2), Some ''json: cannot unmarshal bool into Go value of type int'') \<and>
   ((7, 2) :: int \<times> int) \<noteq> (1, 2)"
  by (simp add: eval_defs demo_defs flag_defs)

text \<open>
  C4 (amended). Without \<open>IgnoreInvalidFiles\<close>, for the candidate sequence \<open>[A, B]\<close> where
  \<open>A\<close> reads and decodes and \<open>B\<close> reads and fails to decode, \<open>Load\<close> returns the decode
  error, \<open>loadedPaths\<close> is \<open>[A]\<close>, \<open>skippedPaths\<close> is empty, and the target is what the
  decoder left behind when it failed on \<open>B\<close>, starting from the target after \<open>A\<close>.
\<close>
theorem decode_failure_aborts:
  assumes "createLookupPaths env l = Inr l1"
      and "lookupPaths l1 = [A, B]"
      and "\<not> Implements l IgnoreInvalidFiles"
      and "read_file env A = Inr dataA"
      and "json_unmarshal env dataA config = (configA, None)"
      and "read_file env B = Inr dataB"
      and "json_unmarshal env dataB configA = (configB, Some err)"
  shows "Load env l config =
           Inr (l1\<lparr>loadedPaths := [A], skippedPaths := []\<rparr>, configB, Some err)"
proof -
  have "Implements l1 IgnoreInvalidFiles = Implements l IgnoreInvalidFiles"
    using createLookupPaths_frame [OF assms(1)] by (metis Implements_lookupPaths)
  then show ?thesis
    using assms by (simp add: Load_def)
qed

text \<open>The same run as an instance of the statement.\<close>
theorem decode_failure_aborts_witness:
  "Load demo_env (demo_loader 0) (0, 0) =
     Inr ((demo_loader 0)
            \<lparr>lookupPaths := [''/srv/app/config.json'', ''/srv/app/config/mixins/alice.json''],
             loadedPaths := [''/srv/app/config.json''], skippedPaths := []\<rparr>,
          (7, 2), Some ''json: cannot unmarshal bool into Go value of type int'')"
  using decode_failure_aborts
          [where env = demo_env and l = "demo_loader 0" and config = "(0, 0)"
             and A = "''/srv/app/config.json''" and B = "''/srv/app/config/mixins/alice.json''"
             and ?l1.0 = "(demo_loader 0)
                 \<lparr>lookupPaths := [''/srv/app/config.json'', ''/srv/app/config/mixins/alice.json'']\<rparr>"
             and dataA = "''[1,2]''" and configA = "(1, 2)"
             and dataB = "''[7,true]''" and configB = "(7, 2)"
             and err = "''json: cannot unmarshal bool into Go value of type int''"]
  by (simp add: eval_defs demo_defs flag_defs)

text \<open>
  C3. Let the scan reach a candidate whose read fails. With \<open>IgnoreMissingFiles\<close> the
  path is appended to \<open>skippedPaths\<close> and the scan goes on with the candidates after it.
  Without the flag \<open>Load\<close> returns that read error with the loader and the target as they
  were when the scan reached the candidate, whatever candidates follow, and the two lists
  hold exactly the candidates before it.
\<close>
theorem read_failure_policy:
  assumes "createLookupPaths env l = Inr l1"
      and "lookupPaths l1 = before @ configPath # after"
      and "read_file env configPath = Inl err"
      and "load_loop env before (l1\<lparr>loadedPaths := [], skippedPaths := []\<rparr>) config
             = (l2, config2, None)"
  shows "(Implements l IgnoreMissingFiles \<longrightarrow>
            Load env l config =
              Inr (load_loop env after (l2\<lparr>skippedPaths := skippedPaths l2 @ [configPath]\<rparr>) config2)) \<and>
         (\<not> Implements l IgnoreMissingFiles \<longrightarrow>
            Load env l config = Inr (l2, config2, Some err) \<and>
            (\<forall>others. load_loop env (before @ configPath # others)
                         (l1\<lparr>loadedPaths := [], skippedPaths := []\<rparr>) config
                       = (l2, config2, Some err)) \<and>
            mset (loadedPaths l2) + mset (skippedPaths l2) = mset before)"
proof -
  from load_loop_inv [OF assms(4)] obtain ls ss where
    l2: "l2 = l1\<lparr>loadedPaths := ls, skippedPaths := ss\<rparr>"
    and m: "mset ls + mset ss = mset before"
    by auto
  have "l1 = l\<lparr>lookupPaths := lookupPaths l1\<rparr>" by (rule createLookupPaths_frame [OF assms(1)])
  then have "Implements l1 IgnoreMissingFiles = Implements l IgnoreMissingFiles"
    by (metis Implements_lookupPaths)
  then have flag: "Implements l2 IgnoreMissingFiles = Implements l IgnoreMissingFiles"
    using l2 by simp
  show ?thesis
    using assms flag m l2 by (simp add: Load_def load_loop_append)
qed

text \<open>
  The arguments name the base, a missing file and the base again; once with
  \<open>IgnoreMissingFiles\<close>, once without.
\<close>
theorem read_failure_policy_witness:
  "Load (demo_env\<lparr>os_args := [''/srv/app/server'', ''/srv/app/config.json'', ''missing.json'',
                                ''/srv/app/config.json'']\<rparr>)
        ((demo_loader (UseArgumentPaths OR IgnoreMissingFiles))\<lparr>PreservedArgs := 0\<rparr>) (0, 0) =
     Inr ((demo_loader (UseArgumentPaths OR IgnoreMissingFiles))
            \<lparr>PreservedArgs := 0,
             lookupPaths := [''/srv/app/config.json'', ''missing.json'', ''/srv/app/config.json''],
             loadedPaths := [''/srv/app/config.json'', ''/srv/app/config.json''],
             skippedPaths := [''missing.json'']\<rparr>, (1, 2), None) \<and>
   Load (demo_env\<lparr>os_args := [''/srv/app/server'', ''/srv/app/config.json'', ''missing.json'',
                                ''/srv/app/config.json'']\<rparr>)
        ((demo_loader UseArgumentPaths)\<lparr>PreservedArgs := 0\<rparr>) (0, 0) =
     Inr ((demo_loader UseArgumentPaths)
            \<lparr>PreservedArgs := 0,
             lookupPaths := [''/srv/app/config.json'', ''missing.json'', ''/srv/app/config.json''],
             loadedPaths := [''/srv/app/config.json''],
             skippedPaths := []\<rparr>, (1, 2), Some ''no such file or directory'')"
  using read_failure_policy
          [where env = "demo_env\<lparr>os_args := [''/srv/app/server'', ''/srv/app/config.json'',
                                   ''missing.json'', ''/srv/app/config.json'']\<rparr>"
             and l = "(demo_loader (UseArgumentPaths OR IgnoreMissingFiles))\<lparr>PreservedArgs := 0\<rparr>"
             and ?l1.0 = "(demo_loader (UseArgumentPaths OR IgnoreMissingFiles))
                 \<lparr>PreservedArgs := 0,
                  lookupPaths := [''/srv/app/config.json'', ''missing.json'', ''/srv/app/config.json'']\<rparr>"
             and before = "[''/srv/app/config.json'']" and configPath = "''missing.json''"
             and after = "[''/srv/app/config.json'']" and err = "''no such file or directory''"
             and config = "(0, 0)" and ?config2.0 = "(1, 2)"
             and ?l2.0 = "(demo_loader (UseArgumentPaths OR IgnoreMissingFiles))
                 \<lparr>PreservedArgs := 0,
                  lookupPaths := [''/srv/app/config.json'', ''missing.json'', ''/srv/app/config.json''],
                  loadedPaths := [''/srv/app/config.json''], skippedPaths := []\<rparr>"]
        read_failure_policy
          [where env = "demo_env\<lparr>os_args := [''/srv/app/server'', ''/srv/app/config.json'',
                                   ''missing.json'', ''/srv/app/config.json'']\<rparr>"
             and l = "(demo_loader UseArgumentPaths)\<lparr>PreservedArgs := 0\<rparr>"
             and ?l1.0 = "(demo_loader UseArgumentPaths)
                 \<lparr>PreservedArgs := 0,
                  lookupPaths := [''/srv/app/config.json'', ''missing.json'', ''/srv/app/config.json'']\<rparr>"
             and before = "[''/srv/app/config.json'']" and configPath = "''missing.json''"
             and after = "[''/srv/app/config.json'']" and err = "''no such file or directory''"
             and config = "(0, 0)" and ?config2.0 = "(1, 2)"
             and ?l2.0 = "(demo_loader UseArgumentPaths)
                 \<lparr>PreservedArgs := 0,
                  lookupPaths := [''/srv/app/config.json'', ''missing.json'', ''/srv/app/config.json''],
                  loadedPaths := [''/srv/app/config.json''], skippedPaths := []\<rparr>"]
  by (simp add: eval_defs demo_defs flag_defs)

text \<open>
  The same path given twice as an argument, \<open>IgnoreInvalidFiles\<close> set, and a target that
  accepts one document only: the path is loaded the first time and skipped the second
  time, so it is in both lists.
\<close>
theorem Load_lists_not_disjoint:
  "Load once_env ((demo_loader (UseArgumentPaths OR IgnoreInvalidFiles))\<lparr>PreservedArgs := 0\<rparr>) False =
     Inr ((demo_loader (UseArgumentPaths OR IgnoreInvalidFiles))
            \<lparr>PreservedArgs := 0,
             lookupPaths := [''/srv/app/config.json'', ''/srv/app/config.json''],
             loadedPaths := [''/srv/app/config.json''],
             skippedPaths := [''/srv/app/config.json'']\<rparr>, True, None) \<and>
   set [''/srv/app/config.json''] \<inter> set [''/srv/app/config.json''] \<noteq> {}"
  by (simp add: eval_defs demo_defs flag_defs)

text \<open>
  C2 (amended). After a call of \<open>Load\<close> that returns, the candidates of a prefix of the
  candidate sequence of that call (all of it when no error is returned) are an
  interleaving of \<open>loadedPaths\<close> and \<open>skippedPaths\<close>: each list is a subsequence of the
  candidates, together they hold exactly the candidates of that prefix, their union is a
  subset of the candidates and equal to them when no error is returned. The two lists are
  disjoint when no path occurs twice among the candidates.
\<close>
theorem Load_lists_partition_candidates:
  assumes "createLookupPaths env l = Inr l1"
      and "Load env l config = Inr (l', config', e)"
  shows "lookupPaths l' = lookupPaths l1 \<and>
         set (loadedPaths l') \<union> set (skippedPaths l') \<subseteq> set (lookupPaths l1) \<and>
         (e = None \<longrightarrow> set (loadedPaths l') \<union> set (skippedPaths l') = set (lookupPaths l1)) \<and>
         subseq (loadedPaths l') (lookupPaths l1) \<and>
         subseq (skippedPaths l') (lookupPaths l1) \<and>
         (\<exists>n \<le> length (lookupPaths l1).
            (e = None \<longrightarrow> n = length (lookupPaths l1)) \<and>
            take n (lookupPaths l1) \<in> shuffles (loadedPaths l') (skippedPaths l') \<and>
            mset (loadedPaths l') + mset (skippedPaths l') = mset (take n (lookupPaths l1))) \<and>
         (distinct (lookupPaths l1) \<longrightarrow> set (loadedPaths l') \<inter> set (skippedPaths l') = {})"
proof -
  let ?xs = "lookupPaths l1"
  have run: "load_loop env ?xs (l1\<lparr>loadedPaths := [], skippedPaths := []\<rparr>) config = (l', config', e)"
    using assms by (simp add: Load_def)
  from load_loop_inv [OF run] obtain n ls ss where
    n: "n \<le> length ?xs" "e = None \<longrightarrow> n = length ?xs"
    and l': "l' = l1\<lparr>loadedPaths := ls, skippedPaths := ss\<rparr>"
    and sub: "subseq ls (take n ?xs)" "subseq ss (take n ?xs)"
    and m: "mset ls + mset ss = mset (take n ?xs)"
    and sh: "take n ?xs \<in> shuffles ls ss"
    by auto
  have lists: "loadedPaths l' = ls" "skippedPaths l' = ss" "lookupPaths l' = ?xs"
    using l' by simp_all
  have "set_mset (mset ls + mset ss) = set_mset (mset (take n ?xs))" using m by simp
  then have u: "set ls \<union> set ss = set (take n ?xs)" by simp
  have s1: "set ls \<union> set ss \<subseteq> set ?xs"
    using u set_take_subset [of n ?xs] by simp
  have s2: "e = None \<longrightarrow> set ls \<union> set ss = set ?xs"
    using u n(2) by simp
  have o: "subseq ls ?xs" "subseq ss ?xs"
    using sub by (auto intro: subseq_take_left)
  have d1: "set ls \<inter> set ss = {}" if "distinct ?xs"
    using m that by (intro mset_split_distinct_disjoint [of ls ss "take n ?xs"]) simp_all
  show ?thesis
    unfolding lists using s1 s2 o n m sh d1 by blast
qed

text \<open>The installation with \<open>IgnoreInvalidFiles\<close>: the base is loaded, the mixin skipped.\<close>
theorem Load_lists_partition_candidates_witness:
  "Load demo_env (demo_loader IgnoreInvalidFiles) (0, 0) =
     Inr ((demo_loader IgnoreInvalidFiles)
            \<lparr>lookupPaths := [''/srv/app/config.json'', ''/srv/app/config/mixins/alice.json''],
             loadedPaths := [''/srv/app/config.json''],
             skippedPaths := [''/srv/app/config/mixins/alice.json'']\<rparr>, (7, 2), None) \<and>
   distinct [''/srv/app/config.json'', ''/srv/app/config/mixins/alice.json''] \<and>
   set [''/srv/app/config.json''] \<union> set [''/srv/app/config/mixins/alice.json''] =
     set [''/srv/app/config.json'', ''/srv/app/config/mixins/alice.json''] \<and>
   set [''/srv/app/config.json''] \<inter> set [''/srv/app/config/mixins/alice.json''] = {} \<and>
   [''/srv/app/config.json'', ''/srv/app/config/mixins/alice.json''] \<in>
     shuffles [''/srv/app/config.json''] [''/srv/app/config/mixins/alice.json''] \<and>
   subseq [''/srv/app/config.json'']
          [''/srv/app/config.json'', ''/srv/app/config/mixins/alice.json''] \<and>
   subseq [''/srv/app/config/mixins/alice.json'']
          [''/srv/app/config.json'', ''/srv/app/config/mixins/alice.json'']"
  using Load_lists_partition_candidates
          [where env = demo_env and l = "demo_loader IgnoreInvalidFiles" and config = "(0, 0)"
             and config' = "(7, 2)" and e = None
             and ?l1.0 = "(demo_loader IgnoreInvalidFiles)
                 \<lparr>lookupPaths := [''/srv/app/config.json'', ''/srv/app/config/mixins/alice.json'']\<rparr>"
             and l' = "(demo_loader IgnoreInvalidFiles)
                 \<lparr>lookupPaths := [''/srv/app/config.json'', ''/srv/app/config/mixins/alice.json''],
                  loadedPaths := [''/srv/app/config.json''],
                  skippedPaths := [''/srv/app/config/mixins/alice.json'']\<rparr>"]
  by (simp add: eval_defs demo_defs flag_defs)

end
